theory Spec2Isabelle
  imports Main
begin

section \<open>wikidump\_auto.py: the weekly Wikipedia dump fetcher\<close>

text \<open>
  The script has four stages, each a Python function: \<open>latest_torrent_url\<close>,
  \<open>download_torrent\<close>, \<open>push_to_qb\<close> and \<open>prune_old_dumps\<close>, run in this order by
  \<open>main\<close>. Each is modelled below as a function on an explicit world state (the local
  file system, the job list of the qBittorrent instance, and the trace of logging and
  library calls made so far); an exception is the \<open>Inl\<close> of the result.

  Strings are lists of 8-bit characters, one \<open>char\<close> per character of the Python
  string, so the model covers the strings over the code points below 256.
\<close>

subsection \<open>Strings, paths\<close>

definition startswith :: "string \<Rightarrow> string \<Rightarrow> bool" where
  "startswith s p = (take (length p) s = p)"

definition endswith :: "string \<Rightarrow> string \<Rightarrow> bool" where
  "endswith s p = (drop (length s - length p) s = p)"

text \<open>\<open>os.path.basename\<close>: what follows the last slash.\<close>

definition basename :: "string \<Rightarrow> string" where
  "basename p = rev (takeWhile (\<lambda>c. c \<noteq> CHR ''/'') (rev p))"

subsection \<open>The regular expressions\<close>

text \<open>
  Both patterns are compiled with \<open>re.I\<close>. The engine compares the lower-cased subject
  character with the lower-cased pattern character; below 256 the lower-case mapping moves
  \<open>A\<close>--\<open>Z\<close> and the upper-case letters of Latin-1 (192--222 but the multiplication
  sign 215) up by 32 and leaves every other character alone.
\<close>

definition sre_lower :: "char \<Rightarrow> char" where
  "sre_lower c =
     (let n = (of_char c :: nat)
      in if (65 \<le> n \<and> n \<le> 90) \<or> (192 \<le> n \<and> n \<le> 222 \<and> n \<noteq> 215)
         then char_of (n + 32) else c)"

text \<open>
  The patterns use literal characters, \<open>.\<close> (any character but a newline), \<open>\d\<close> (a
  decimal digit; below 256 these are \<open>0\<close>--\<open>9\<close>), the star on \<open>.\<close>, and \<open>$\<close>,
  which without \<open>re.M\<close> holds at the end of the string and just before a newline that
  ends the string.
\<close>

datatype cls = Chr char | AnyChar | Digit

datatype item = One cls | Star cls | Eos

fun cls_ok :: "cls \<Rightarrow> char \<Rightarrow> bool" where
  "cls_ok (Chr c) x = (sre_lower x = sre_lower c)"
| "cls_ok AnyChar x = (x \<noteq> CHR 0x0A)"
| "cls_ok Digit x = (48 \<le> (of_char x :: nat) \<and> (of_char x :: nat) \<le> 57)"

text \<open>
  \<open>rmatch p s\<close>: the pattern \<open>p\<close> matches at the start of \<open>s\<close> (Python's
  \<open>p.match(s)\<close> is not \<open>None\<close>). Whether a match exists does not depend on the order
  in which the backtracking engine tries the alternatives of a star.
\<close>

fun rmatch :: "item list \<Rightarrow> string \<Rightarrow> bool" where
  "rmatch [] s = True"
| "rmatch (One c # p) [] = False"
| "rmatch (One c # p) (x # s) = (cls_ok c x \<and> rmatch p s)"
| "rmatch (Star c # p) [] = rmatch p []"
| "rmatch (Star c # p) (x # s) = ((cls_ok c x \<and> rmatch (Star c # p) s) \<or> rmatch p (x # s))"
| "rmatch (Eos # p) s = ((s = [] \<or> s = [CHR 0x0A]) \<and> rmatch p s)"

text \<open>\<open>re_search p s\<close>: \<open>p.search(s)\<close> is not \<open>None\<close>; every start position is tried.\<close>

fun re_search :: "item list \<Rightarrow> string \<Rightarrow> bool" where
  "re_search p [] = rmatch p []"
| "re_search p (x # s) = (rmatch p (x # s) \<or> re_search p s)"

definition lit :: "string \<Rightarrow> item list" where
  "lit s = map (\<lambda>c. One (Chr c)) s"

text \<open>\<^verbatim>\<open>TORRENT_NAME_RE = re.compile(r"enwiki-.*pages-articles-multistream.*\.torrent$", re.I)\<close>\<close>

definition TORRENT_NAME_RE :: "item list" where
  "TORRENT_NAME_RE =
     lit ''enwiki-'' @ [Star AnyChar] @ lit ''pages-articles-multistream'' @ [Star AnyChar]
       @ lit ''.torrent'' @ [Eos]"

text \<open>\<^verbatim>\<open>DUMP_FILE_RE = re.compile(r"enwiki-\d{8}-pages-articles-multistream.*\.bz2$", re.I)\<close>\<close>

definition DUMP_FILE_RE :: "item list" where
  "DUMP_FILE_RE =
     lit ''enwiki-'' @ replicate 8 (One Digit) @ lit ''-pages-articles-multistream''
       @ [Star AnyChar] @ lit ''.bz2'' @ [Eos]"

subsection \<open>The world: file system, remote job list, trace\<close>

text \<open>
  A path is the list of its components from the root; \<open>[]\<close> is the root, which is
  always a directory. A time is an integer, the microseconds since 0001-01-01 00:00:00;
  the times that are a \<open>datetime\<close> are those from 0 up to \<open>DATETIME_END\<close>, the end of
  the year 9999 (day 3652059 is 9999-12-31).

  An entry is a regular file with its content and modification time, a directory, or a
  symbolic link together with what it resolves to. The target of a link is taken to lie
  outside what a run creates or removes, so that what a link resolves to does not change
  during a run.
\<close>

type_synonym path = "string list"

datatype target = To_File string int | To_Dir | Dangling

datatype node = File string int | Dir | Link target

type_synonym filesystem = "path \<Rightarrow> node option"

record job =
  torrent_files :: string
  save_path :: path
  job_category :: string
  use_auto_torrent_management :: bool
  paused :: bool

datatype error =
    RuntimeError
  | MissingSchema
  | ConnectionError
  | HTTPError
  | LoginFailed
  | OverflowError
  | ValueError
  | IsADirectoryError
  | FileNotFoundError
  | NotADirectoryError
  | FileExistsError
  | PermissionError
  | OSError

text \<open>
  What the operating system refuses for reasons outside this state: permissions, a
  read-only or full file system, a name that is too long. \<open>os call p = Some e\<close> says
  that the call on the path \<open>p\<close> is refused with the error \<open>e\<close>.
\<close>

datatype syscall = Sys_open | Sys_mkdir | Sys_unlink | Sys_listdir

type_synonym os = "syscall \<Rightarrow> path \<Rightarrow> error option"

text \<open>Every logging call and every call that leaves the process, in the order made.\<close>

datatype event =
    Log_FetchingIndex
  | Http_Get string
  | Http_Get_Stream string
  | Log_Downloading string path
  | Open_WB path
  | Auth_Log_In string int string string
  | Log_Connected
  | Log_CreatingSaveDir path
  | Mkdir path
  | Open_RB path
  | Torrents_Add job
  | Log_TorrentQueued string
  | Iterdir path
  | Log_Removing string
  | Unlink path
  | Log_Pruned nat
  | Log_Error error

record world =
  fs :: filesystem
  jobs :: "job list"
  trace :: "event list"

definition emit :: "event list \<Rightarrow> world \<Rightarrow> world" where
  "emit es w = w\<lparr>trace := trace w @ es\<rparr>"

text \<open>What \<open>stat\<close> sees at a path: links are followed.\<close>

fun resolve_node :: "node \<Rightarrow> node option" where
  "resolve_node (Link (To_File c m)) = Some (File c m)"
| "resolve_node (Link To_Dir) = Some Dir"
| "resolve_node (Link Dangling) = None"
| "resolve_node (File c m) = Some (File c m)"
| "resolve_node Dir = Some Dir"

definition resolved :: "filesystem \<Rightarrow> path \<Rightarrow> node option" where
  "resolved f p = (case f p of None \<Rightarrow> None | Some x \<Rightarrow> resolve_node x)"

text \<open>\<open>Path.is_dir\<close> follows links; \<open>path_exists\<close> is \<open>lexists\<close>, which does not.\<close>

definition is_dir :: "filesystem \<Rightarrow> path \<Rightarrow> bool" where
  "is_dir f p = (p = [] \<or> resolved f p = Some Dir)"

definition path_exists :: "filesystem \<Rightarrow> path \<Rightarrow> bool" where
  "path_exists f p = (p = [] \<or> f p \<noteq> None)"

text \<open>The error of a call below a parent that is no directory.\<close>

definition parent_error :: "filesystem \<Rightarrow> path \<Rightarrow> error" where
  "parent_error f p =
     (if butlast p \<noteq> [] \<and> resolved f (butlast p) = None then FileNotFoundError
      else NotADirectoryError)"

text \<open>
  \<open>Path(d) / b\<close>, resolved: pathlib drops an empty or \<open>.\<close> component, and \<open>..\<close> is
  the parent directory.
\<close>

definition pjoin :: "path \<Rightarrow> string \<Rightarrow> path" where
  "pjoin d b = (if b = [] \<or> b = ''.'' then d else if b = ''..'' then butlast d else d @ [b])"

subsection \<open>Stage 1: \<open>latest_torrent_url\<close>\<close>

text \<open>
  The argument is the list of the \<open>href\<close> values of the page's anchors in document
  order, which is what \<open>soup.find_all("a", href=True)\<close> yields.
\<close>

definition META_URL :: string where
  "META_URL = ''https://meta.wikimedia.org/wiki/Data_dump_torrents''"

fun scan_hrefs :: "string list \<Rightarrow> error + string" where
  "scan_hrefs [] = Inl RuntimeError"
| "scan_hrefs (href # rest) =
     (if re_search TORRENT_NAME_RE href then
        (if startswith href ''//'' then Inr (''https:'' @ href)
         else if startswith href ''/'' then Inr (''https://meta.wikimedia.org'' @ href)
         else Inr href)
      else scan_hrefs rest)"

definition latest_torrent_url :: "string list \<Rightarrow> world \<Rightarrow> (error + string) \<times> world" where
  "latest_torrent_url hrefs w = (scan_hrefs hrefs, emit [Log_FetchingIndex, Http_Get META_URL] w)"

subsection \<open>Stage 2: \<open>download_torrent\<close>\<close>

text \<open>
  An absolute URL, one that \<open>requests\<close> takes: it starts with the scheme \<open>http://\<close> or
  \<open>https://\<close>, in any case. For any other string \<open>requests.get\<close> raises before a
  request is made.
\<close>

definition absolute_url :: "string \<Rightarrow> bool" where
  "absolute_url u =
     (startswith (map sre_lower u) ''http://'' \<or> startswith (map sre_lower u) ''https://'')"

text \<open>
  A response has its status and the chunks of the body that arrive; \<open>broken\<close> is the
  error with which the stream ends when it does not end well. What the network gives for
  a URL is a response, or the error that \<open>requests.get\<close> raises (no connection, a
  timeout).
\<close>

record response =
  status_code :: nat
  chunks :: "string list"
  broken :: "error option"

text \<open>\<open>Response.raise_for_status\<close> raises for the 4xx and 5xx codes only.\<close>

definition raise_for_status :: "response \<Rightarrow> bool" where
  "raise_for_status r = (400 \<le> status_code r \<and> status_code r < 600)"

text \<open>What a path holds once \<open>content\<close> has been written through it.\<close>

definition written :: "node option \<Rightarrow> string \<Rightarrow> int \<Rightarrow> node" where
  "written old content now =
     (case old of Some (Link t) \<Rightarrow> Link (To_File content now) | _ \<Rightarrow> File content now)"

text \<open>
  \<open>fn.open("wb")\<close>: fails when the operating system refuses, on a directory, and under
  a parent that is no directory; otherwise the file exists afterwards and is empty.
\<close>

definition open_wb :: "os \<Rightarrow> filesystem \<Rightarrow> path \<Rightarrow> int \<Rightarrow> error + filesystem" where
  "open_wb os f p now =
     (case os Sys_open p of
        Some e \<Rightarrow> Inl e
      | None \<Rightarrow>
          if is_dir f p then Inl IsADirectoryError
          else if \<not> is_dir f (butlast p) then Inl (parent_error f p)
          else Inr (f(p \<mapsto> written (f p) [] now)))"

text \<open>
  \<open>requests.get\<close> comes first in the \<open>with\<close> statement, then the file is opened,
  then the status is checked, then the chunks are written as they arrive.
\<close>

definition download_torrent ::
  "os \<Rightarrow> path \<Rightarrow> int \<Rightarrow> string \<Rightarrow> error + response \<Rightarrow> world \<Rightarrow> (error + path) \<times> world" where
  "download_torrent os tmpdir now url answer w =
     (let fn = pjoin tmpdir (basename url);
          w1 = emit [Log_Downloading url fn, Http_Get_Stream url] w
      in if \<not> absolute_url url then (Inl MissingSchema, w1)
         else case answer of
           Inl e \<Rightarrow> (Inl e, w1)
         | Inr r \<Rightarrow>
             (let w2 = emit [Open_WB fn] w1
              in case open_wb os (fs w2) fn now of
                   Inl e \<Rightarrow> (Inl e, w2)
                 | Inr f \<Rightarrow>
                     if raise_for_status r then (Inl HTTPError, w2\<lparr>fs := f\<rparr>)
                     else (case broken r of
                             Some e \<Rightarrow>
                               (Inl e, w2\<lparr>fs := f(fn \<mapsto> written (f fn) (concat (chunks r)) now)\<rparr>)
                           | None \<Rightarrow>
                               (Inr fn,
                                w2\<lparr>fs := f(fn \<mapsto> written (f fn) (concat (chunks r)) now)\<rparr>))))"

subsection \<open>Stage 3: \<open>push_to_qb\<close>\<close>

text \<open>
  \<open>os.mkdir\<close>: the operating system must not refuse, the parent must be a directory
  and the path must not exist.
\<close>

definition os_mkdir :: "os \<Rightarrow> filesystem \<Rightarrow> path \<Rightarrow> error + filesystem" where
  "os_mkdir os f p =
     (case os Sys_mkdir p of
        Some e \<Rightarrow> Inl e
      | None \<Rightarrow>
          if \<not> is_dir f (butlast p) then Inl (parent_error f p)
          else if path_exists f p then Inl FileExistsError
          else Inr (f(p \<mapsto> Dir)))"

text \<open>
  \<open>Path.mkdir(parents=True, exist_ok=True)\<close>, as pathlib has it: on
  \<open>FileNotFoundError\<close> make the parent first and try once more; any other
  \<open>OSError\<close> is swallowed when the path is a directory by now.
\<close>

definition mkdir_once :: "os \<Rightarrow> filesystem \<Rightarrow> path \<Rightarrow> error + filesystem" where
  "mkdir_once os f p =
     (case os_mkdir os f p of
        Inr f' \<Rightarrow> Inr f'
      | Inl e \<Rightarrow> if e \<noteq> FileNotFoundError \<and> is_dir f p then Inr f else Inl e)"

fun mkdir_parents :: "os \<Rightarrow> filesystem \<Rightarrow> path \<Rightarrow> error + filesystem" where
  "mkdir_parents os f p =
     (if os_mkdir os f p = Inl FileNotFoundError then
        (if p = [] then Inl FileNotFoundError
         else case mkdir_parents os f (butlast p) of
                Inl e \<Rightarrow> Inl e
              | Inr f1 \<Rightarrow> mkdir_once os f1 p)
      else mkdir_once os f p)"

declare mkdir_parents.simps [simp del]

text \<open>
  \<open>accepts host port user pw\<close> says whether the WebUI at that address accepts the
  credentials; \<open>auth_log_in\<close> raises \<open>LoginFailed\<close> when it does not. The event
  \<open>Log_Connected\<close> stands for the log line with the two version strings read from the
  client. A directory, the root among them, cannot be opened for reading.
\<close>

definition push_to_qb ::
  "os \<Rightarrow> (string \<Rightarrow> int \<Rightarrow> string \<Rightarrow> string \<Rightarrow> bool) \<Rightarrow> path \<Rightarrow> string \<Rightarrow> int \<Rightarrow> string \<Rightarrow> string
     \<Rightarrow> path \<Rightarrow> string \<Rightarrow> world \<Rightarrow> (error + unit) \<times> world" where
  "push_to_qb os accepts torrent_path host port user pw save_dir category w =
     (let w1 = emit [Auth_Log_In host port user pw] w in
      if \<not> accepts host port user pw then (Inl LoginFailed, w1)
      else
        let w2 = emit [Log_Connected] w1;
            made = (if \<not> is_dir (fs w2) save_dir
                    then (let w3 = emit [Log_CreatingSaveDir save_dir, Mkdir save_dir] w2
                          in case mkdir_parents os (fs w3) save_dir of
                               Inl e \<Rightarrow> (Inl e, w3)
                             | Inr f \<Rightarrow> (Inr (), w3\<lparr>fs := f\<rparr>))
                    else (Inr (), w2))
        in case made of
             (Inl e, w4) \<Rightarrow> (Inl e, w4)
           | (Inr u, w4) \<Rightarrow>
               (let w5 = emit [Open_RB torrent_path] w4
                in case os Sys_open torrent_path of
                     Some e \<Rightarrow> (Inl e, w5)
                   | None \<Rightarrow>
                       if is_dir (fs w5) torrent_path then (Inl IsADirectoryError, w5)
                       else case resolved (fs w5) torrent_path of
                         Some (File c m) \<Rightarrow>
                           (let j = \<lparr>torrent_files = c, save_path = save_dir,
                                      job_category = category,
                                      use_auto_torrent_management = False, paused = False\<rparr>
                            in (Inr (),
                                emit [Torrents_Add j, Log_TorrentQueued (last torrent_path)]
                                  (w5\<lparr>jobs := jobs w5 @ [j]\<rparr>)))
                       | _ \<Rightarrow> (Inl FileNotFoundError, w5)))"

subsection \<open>Stage 4: \<open>prune_old_dumps\<close>\<close>

text \<open>
  \<open>datetime.now() - timedelta(days=keep_days)\<close>: \<open>timedelta\<close> refuses more than
  999999999 days, and the subtraction refuses a result outside the years 1 to 9999; both
  raise \<open>OverflowError\<close>.
\<close>

definition DATETIME_END :: int where
  "DATETIME_END = 3652059 * 86400000000"


text \<open>\<open>datetime.fromtimestamp\<close> raises for a time that is no \<open>datetime\<close>.\<close>

definition fromtimestamp :: "int \<Rightarrow> error + int" where
  "fromtimestamp m = (if 0 \<le> m \<and> m < DATETIME_END then Inr m else Inl ValueError)"

text \<open>
  The loop over the names that \<open>directory.iterdir()\<close> yielded. \<open>is_file\<close> and \<open>stat\<close>
  follow links; \<open>unlink\<close> removes the entry itself, and its \<open>missing_ok\<close> swallows
  \<open>FileNotFoundError\<close> only. An exception leaves the loop with the count lost.
\<close>

fun prune_loop ::
  "os \<Rightarrow> path \<Rightarrow> int \<Rightarrow> string list \<Rightarrow> nat \<Rightarrow> world \<Rightarrow> (error + nat) \<times> world" where
  "prune_loop os d cutoff [] removed w = (Inr removed, w)"
| "prune_loop os d cutoff (n # ns) removed w =
     (case resolved (fs w) (d @ [n]) of
        Some (File c m) \<Rightarrow>
          if \<not> rmatch DUMP_FILE_RE n then prune_loop os d cutoff ns removed w
          else if endswith n ''.!qB'' then prune_loop os d cutoff ns removed w
          else (case fromtimestamp m of
                  Inl e \<Rightarrow> (Inl e, w)
                | Inr t \<Rightarrow>
                    if t < cutoff then
                      (let w1 = emit [Log_Removing n, Unlink (d @ [n])] w
                       in case os Sys_unlink (d @ [n]) of
                            None \<Rightarrow>
                              prune_loop os d cutoff ns (removed + 1)
                                (w1\<lparr>fs := (fs w1)(d @ [n] := None)\<rparr>)
                          | Some e \<Rightarrow>
                              if e = FileNotFoundError
                              then prune_loop os d cutoff ns (removed + 1) w1
                              else (Inl e, w1))
                    else prune_loop os d cutoff ns removed w)
      | _ \<Rightarrow> prune_loop os d cutoff ns removed w)"


subsection \<open>\<open>main\<close>\<close>




subsection \<open>Notions used in the statements\<close>

text \<open>Equality of strings up to case, as \<open>re.I\<close> compares them.\<close>

definition ci_eq :: "string \<Rightarrow> string \<Rightarrow> bool" where
  "ci_eq u w = (map sre_lower u = map sre_lower w)"



text \<open>The events a call added to the trace.\<close>

definition new_events :: "world \<Rightarrow> world \<Rightarrow> event list" where
  "new_events w w' = drop (length (trace w)) (trace w')"

text \<open>The file system is a tree: whatever exists lies in a directory.\<close>

definition tree :: "filesystem \<Rightarrow> bool" where
  "tree f = (\<forall>p. f p \<noteq> None \<longrightarrow> is_dir f (butlast p))"



section \<open>The patterns\<close>

lemma lit_Nil: "lit [] = []"
  by (simp add: lit_def)

lemma lit_Cons: "lit (c # w) = One (Chr c) # lit w"
  by (simp add: lit_def)

lemma rmatch_lit:
  "rmatch (lit w @ p) s = (\<exists>u t. s = u @ t \<and> ci_eq u w \<and> rmatch p t)"
proof (induction w arbitrary: s)
  case Nil
  show ?case by (simp add: lit_Nil ci_eq_def)
next
  case (Cons c w)
  show ?case
  proof (cases s)
    case Nil
    then show ?thesis by (simp add: lit_Cons ci_eq_def)
  next
    case (Cons x s')
    show ?thesis
    proof
      assume "rmatch (lit (c # w) @ p) s"
      then have a: "sre_lower x = sre_lower c" and b: "rmatch (lit w @ p) s'"
        using Cons by (simp_all add: lit_Cons)
      from b Cons.IH obtain u t where "s' = u @ t" "ci_eq u w" "rmatch p t"
        by blast
      then have "s = (x # u) @ t \<and> ci_eq (x # u) (c # w) \<and> rmatch p t"
        using a Cons by (simp add: ci_eq_def)
      then show "\<exists>u t. s = u @ t \<and> ci_eq u (c # w) \<and> rmatch p t"
        by blast
    next
      assume "\<exists>u t. s = u @ t \<and> ci_eq u (c # w) \<and> rmatch p t"
      then obtain u t where h: "s = u @ t" "ci_eq u (c # w)" "rmatch p t"
        by blast
      from h(2) obtain y u' where u: "u = y # u'"
        by (cases u) (auto simp: ci_eq_def)
      from h(1) h(2) u Cons have "y = x" "s' = u' @ t" "sre_lower x = sre_lower c" "ci_eq u' w"
        by (auto simp: ci_eq_def)
      moreover from this h(3) Cons.IH have "rmatch (lit w @ p) s'"
        by blast
      ultimately show "rmatch (lit (c # w) @ p) s"
        using Cons by (simp add: lit_Cons)
    qed
  qed
qed

lemma rmatch_star_any:
  "rmatch (Star AnyChar # p) s = (\<exists>a t. s = a @ t \<and> CHR 0x0A \<notin> set a \<and> rmatch p t)"
proof (induction s)
  case Nil
  show ?case by simp
next
  case (Cons x s)
  show ?case
  proof
    assume "rmatch (Star AnyChar # p) (x # s)"
    then consider "x \<noteq> CHR 0x0A" "rmatch (Star AnyChar # p) s" | "rmatch p (x # s)"
      by auto
    then show "\<exists>a t. x # s = a @ t \<and> CHR 0x0A \<notin> set a \<and> rmatch p t"
    proof cases
      case 1
      with Cons.IH obtain a t where "s = a @ t" "CHR 0x0A \<notin> set a" "rmatch p t"
        by blast
      with 1 have "x # s = (x # a) @ t \<and> CHR 0x0A \<notin> set (x # a) \<and> rmatch p t"
        by auto
      then show ?thesis by blast
    next
      case 2
      then have "x # s = [] @ (x # s) \<and> CHR 0x0A \<notin> set ([] :: string) \<and> rmatch p (x # s)"
        by simp
      then show ?thesis by blast
    qed
  next
    assume "\<exists>a t. x # s = a @ t \<and> CHR 0x0A \<notin> set a \<and> rmatch p t"
    then obtain a t where h: "x # s = a @ t" "CHR 0x0A \<notin> set a" "rmatch p t"
      by blast
    show "rmatch (Star AnyChar # p) (x # s)"
    proof (cases a)
      case Nil
      with h have "rmatch p (x # s)" by simp
      then show ?thesis by simp
    next
      case (Cons y a')
      with h have "x \<noteq> CHR 0x0A" "s = a' @ t" "CHR 0x0A \<notin> set a'"
        by auto
      with h(3) Cons.IH have "rmatch (Star AnyChar # p) s"
        by blast
      with \<open>x \<noteq> CHR 0x0A\<close> show ?thesis by simp
    qed
  qed
qed

lemma rmatch_eos: "rmatch [Eos] s = (s = [] \<or> s = [CHR 0x0A])"
  by simp

lemma rmatch_digits:
  "rmatch (replicate k (One Digit) @ p) s \<Longrightarrow> \<exists>u t. s = u @ t \<and> rmatch p t"
proof (induction k arbitrary: s)
  case 0
  then have "s = [] @ s \<and> rmatch p s" by simp
  then show ?case by blast
next
  case (Suc k)
  then obtain x s' where s: "s = x # s'" and "rmatch (replicate k (One Digit) @ p) s'"
    by (cases s) auto
  with Suc.IH obtain u t where "s' = u @ t" "rmatch p t"
    by blast
  with s have "s = (x # u) @ t \<and> rmatch p t" by simp
  then show ?case by blast
qed

lemma re_search_iff: "re_search p s = (\<exists>pre t. s = pre @ t \<and> rmatch p t)"
proof (induction s)
  case Nil
  show ?case by simp
next
  case (Cons x s)
  show ?case
  proof
    assume "re_search p (x # s)"
    then consider "rmatch p (x # s)" | "re_search p s" by auto
    then show "\<exists>pre t. x # s = pre @ t \<and> rmatch p t"
    proof cases
      case 1
      then have "x # s = [] @ (x # s) \<and> rmatch p (x # s)" by simp
      then show ?thesis by blast
    next
      case 2
      with Cons.IH obtain pre t where "s = pre @ t" "rmatch p t" by blast
      then have "x # s = (x # pre) @ t \<and> rmatch p t" by simp
      then show ?thesis by blast
    qed
  next
    assume "\<exists>pre t. x # s = pre @ t \<and> rmatch p t"
    then obtain pre t where h: "x # s = pre @ t" "rmatch p t" by blast
    show "re_search p (x # s)"
    proof (cases pre)
      case Nil
      with h have "rmatch p (x # s)" by simp
      then show ?thesis by simp
    next
      case (Cons y pre')
      with h have "s = pre' @ t" by simp
      with h(2) Cons.IH have "re_search p s" by blast
      then show ?thesis by simp
    qed
  qed
qed

lemma endswith_iff: "endswith s p = (\<exists>m. s = m @ p)"
proof
  assume "endswith s p"
  then have "s = take (length s - length p) s @ p"
    by (metis append_take_drop_id endswith_def)
  then show "\<exists>m. s = m @ p" by blast
next
  assume "\<exists>m. s = m @ p"
  then show "endswith s p" by (auto simp: endswith_def)
qed

lemma TORRENT_NAME_RE_items:
  "TORRENT_NAME_RE =
     lit ''enwiki-'' @ (Star AnyChar # (lit ''pages-articles-multistream''
       @ (Star AnyChar # (lit ''.torrent'' @ [Eos]))))"
  by (simp add: TORRENT_NAME_RE_def)

lemma torrent_search_iff:
  "re_search TORRENT_NAME_RE h =
     (\<exists>pre e a m b t nl. h = pre @ e @ a @ m @ b @ t @ nl \<and> ci_eq e ''enwiki-''
        \<and> CHR 0x0A \<notin> set a \<and> ci_eq m ''pages-articles-multistream''
        \<and> CHR 0x0A \<notin> set b \<and> ci_eq t ''.torrent'' \<and> (nl = [] \<or> nl = [CHR 0x0A]))"
proof
  assume "re_search TORRENT_NAME_RE h"
  then obtain pre t0 where 0: "h = pre @ t0" "rmatch TORRENT_NAME_RE t0"
    unfolding re_search_iff by blast
  from 0(2) obtain e t1 where 1: "t0 = e @ t1" "ci_eq e ''enwiki-''"
      "rmatch (Star AnyChar # (lit ''pages-articles-multistream''
          @ (Star AnyChar # (lit ''.torrent'' @ [Eos])))) t1"
    unfolding TORRENT_NAME_RE_items using rmatch_lit by blast
  from 1(3) obtain a t2 where 2: "t1 = a @ t2" "CHR 0x0A \<notin> set a"
      "rmatch (lit ''pages-articles-multistream'' @ (Star AnyChar # (lit ''.torrent'' @ [Eos]))) t2"
    using rmatch_star_any by blast
  from 2(3) obtain m t3 where 3: "t2 = m @ t3" "ci_eq m ''pages-articles-multistream''"
      "rmatch (Star AnyChar # (lit ''.torrent'' @ [Eos])) t3"
    using rmatch_lit by blast
  from 3(3) obtain b t4 where 4: "t3 = b @ t4" "CHR 0x0A \<notin> set b"
      "rmatch (lit ''.torrent'' @ [Eos]) t4"
    using rmatch_star_any by blast
  from 4(3) obtain t nl where 5: "t4 = t @ nl" "ci_eq t ''.torrent''" "rmatch [Eos] nl"
    using rmatch_lit by blast
  from 5(3) have 6: "nl = [] \<or> nl = [CHR 0x0A]" by simp
  have "h = pre @ e @ a @ m @ b @ t @ nl"
    using 0(1) 1(1) 2(1) 3(1) 4(1) 5(1) by simp
  with 1(2) 2(2) 3(2) 4(2) 5(2) 6
  show "\<exists>pre e a m b t nl. h = pre @ e @ a @ m @ b @ t @ nl \<and> ci_eq e ''enwiki-''
        \<and> CHR 0x0A \<notin> set a \<and> ci_eq m ''pages-articles-multistream''
        \<and> CHR 0x0A \<notin> set b \<and> ci_eq t ''.torrent'' \<and> (nl = [] \<or> nl = [CHR 0x0A])"
    by blast
next
  assume "\<exists>pre e a m b t nl. h = pre @ e @ a @ m @ b @ t @ nl \<and> ci_eq e ''enwiki-''
        \<and> CHR 0x0A \<notin> set a \<and> ci_eq m ''pages-articles-multistream''
        \<and> CHR 0x0A \<notin> set b \<and> ci_eq t ''.torrent'' \<and> (nl = [] \<or> nl = [CHR 0x0A])"
  then obtain pre e a m b t nl where
    h: "h = pre @ e @ a @ m @ b @ t @ nl" and e: "ci_eq e ''enwiki-''"
    and a: "CHR 0x0A \<notin> set a" and m: "ci_eq m ''pages-articles-multistream''"
    and b: "CHR 0x0A \<notin> set b" and t: "ci_eq t ''.torrent''"
    and nl: "nl = [] \<or> nl = [CHR 0x0A]"
    by blast
  from nl have "rmatch [Eos] nl" by simp
  with t have "rmatch (lit ''.torrent'' @ [Eos]) (t @ nl)"
    using rmatch_lit by blast
  with b have "rmatch (Star AnyChar # (lit ''.torrent'' @ [Eos])) (b @ t @ nl)"
    using rmatch_star_any by blast
  with m have "rmatch (lit ''pages-articles-multistream''
      @ (Star AnyChar # (lit ''.torrent'' @ [Eos]))) (m @ b @ t @ nl)"
    using rmatch_lit by blast
  with a have "rmatch (Star AnyChar # (lit ''pages-articles-multistream''
      @ (Star AnyChar # (lit ''.torrent'' @ [Eos])))) (a @ m @ b @ t @ nl)"
    using rmatch_star_any by blast
  with e have "rmatch TORRENT_NAME_RE (e @ a @ m @ b @ t @ nl)"
    unfolding TORRENT_NAME_RE_items using rmatch_lit by blast
  with h show "re_search TORRENT_NAME_RE h"
    using re_search_iff by blast
qed


lemma dump_match_last:
  assumes "rmatch DUMP_FILE_RE n"
  shows "\<exists>m d nl. n = m @ [d] @ nl \<and> sre_lower d = sre_lower CHR ''2''
           \<and> (nl = [] \<or> nl = [CHR 0x0A])"
proof -
  from assms obtain u1 t1 where 1: "n = u1 @ t1"
      "rmatch (replicate 8 (One Digit) @ lit ''-pages-articles-multistream''
          @ [Star AnyChar] @ lit ''.bz2'' @ [Eos]) t1"
    unfolding DUMP_FILE_RE_def rmatch_lit by blast
  from rmatch_digits [OF 1(2)] obtain u2 t2 where 2: "t1 = u2 @ t2"
      "rmatch (lit ''-pages-articles-multistream'' @ [Star AnyChar] @ lit ''.bz2'' @ [Eos]) t2"
    by blast
  from 2(2) obtain u3 t3 where 3: "t2 = u3 @ t3"
      "rmatch (Star AnyChar # lit ''.bz2'' @ [Eos]) t3"
    unfolding rmatch_lit by auto
  from 3(2) obtain a t4 where 4: "t3 = a @ t4" "rmatch (lit ''.bz2'' @ [Eos]) t4"
    unfolding rmatch_star_any by blast
  from 4(2) obtain u5 nl where 5: "t4 = u5 @ nl" "ci_eq u5 ''.bz2''" "nl = [] \<or> nl = [CHR 0x0A]"
    unfolding rmatch_lit rmatch_eos by blast
  from 5(2) obtain x1 x2 x3 d where 6: "u5 = [x1, x2, x3, d]" "sre_lower d = sre_lower CHR ''2''"
    by (auto simp: ci_eq_def map_eq_Cons_conv)
  have "n = (u1 @ u2 @ u3 @ a @ [x1, x2, x3]) @ [d] @ nl"
    using 1(1) 2(1) 3(1) 4(1) 5(1) 6(1) by simp
  with 6(2) 5(3) show ?thesis by blast
qed

lemma lower_B: "sre_lower CHR ''B'' \<noteq> sre_lower CHR ''2''"
  by code_simp

lemma in_progress_never_matches:
  assumes "endswith n ''.!qB''"
  shows "\<not> rmatch DUMP_FILE_RE n"
proof
  assume "rmatch DUMP_FILE_RE n"
  from dump_match_last [OF this] obtain m d nl where
    h: "n = m @ [d] @ nl" "sre_lower d = sre_lower CHR ''2''" "nl = [] \<or> nl = [CHR 0x0A]"
    by blast
  from assms obtain k where k: "n = k @ ''.!qB''"
    unfolding endswith_iff by blast
  then have l: "last n = CHR ''B''" by simp
  from h(3) show False
  proof
    assume "nl = []"
    with h(1) have "last n = d" by simp
    with l h(2) lower_B show False by simp
  next
    assume "nl = [CHR 0x0A]"
    with h(1) have "last n = CHR 0x0A" by simp
    with l show False by simp
  qed
qed

lemma scan_hrefs_find:
  "scan_hrefs hrefs =
     (case find (re_search TORRENT_NAME_RE) hrefs of
        None \<Rightarrow> Inl RuntimeError
      | Some h \<Rightarrow>
          Inr (if startswith h ''//'' then ''https:'' @ h
               else if startswith h ''/'' then ''https://meta.wikimedia.org'' @ h
               else h))"
  by (induction hrefs) simp_all

section \<open>The link resolver\<close>

text \<open>
  What the loop of \<open>latest_torrent_url\<close> computes: the first href that the pattern
  finds, behind \<open>https:\<close> when it starts with \<open>//\<close>, behind
  \<open>https://meta.wikimedia.org\<close> when it starts with \<open>/\<close>, and unchanged otherwise;
  the \<open>RuntimeError\<close> when the pattern finds none.
\<close>

lemma latest_torrent_url_first_match:
  "fst (latest_torrent_url hrefs w) =
     (case find (re_search TORRENT_NAME_RE) hrefs of
        None \<Rightarrow> Inl RuntimeError
      | Some h \<Rightarrow>
          Inr (if startswith h ''//'' then ''https:'' @ h
               else if startswith h ''/'' then ''https://meta.wikimedia.org'' @ h
               else h))"
  by (simp add: latest_torrent_url_def scan_hrefs_find)

text \<open>
  C1 does not hold of the code. The docstring promises the absolute URL of the torrent,
  and the two slash cases make one; but an href that matches and is relative to the page
  (it starts neither with a slash nor with a scheme) falls through to the last
  \<open>return\<close> and comes back as it is, which is no absolute URL.
\<close>

theorem latest_torrent_url_relative_href:
  "fst (latest_torrent_url [''dumps/enwiki-20240101-pages-articles-multistream.xml.bz2.torrent'']
          \<lparr>fs = Map.empty, jobs = [], trace = []\<rparr>)
     = Inr ''dumps/enwiki-20240101-pages-articles-multistream.xml.bz2.torrent''
   \<and> \<not> absolute_url ''dumps/enwiki-20240101-pages-articles-multistream.xml.bz2.torrent''"
proof -
  have m: "re_search TORRENT_NAME_RE
      ''dumps/enwiki-20240101-pages-articles-multistream.xml.bz2.torrent''"
    by code_simp
  have a: "\<not> absolute_url ''dumps/enwiki-20240101-pages-articles-multistream.xml.bz2.torrent''"
    by code_simp
  from m have "fst (latest_torrent_url
          [''dumps/enwiki-20240101-pages-articles-multistream.xml.bz2.torrent'']
          \<lparr>fs = Map.empty, jobs = [], trace = []\<rparr>)
     = Inr ''dumps/enwiki-20240101-pages-articles-multistream.xml.bz2.torrent''"
    by (simp add: latest_torrent_url_def startswith_def)
  with a show ?thesis by simp
qed

text \<open>
  C3, as the code has it. The pattern is searched in the whole href, and \<open>.*\<close> runs
  across slashes: an href is selected exactly when it ends (up to one final newline) with
  \<open>enwiki-\<close>, any characters, \<open>pages-articles-multistream\<close>, any characters,
  \<open>.torrent\<close>, compared without case, the characters in between being anything but a
  newline. An href whose trailing path segment matches is therefore selected, and so is
  one where the match starts in an earlier segment.
\<close>

theorem resolver_selects_on_whole_href:
  "((\<exists>u. fst (latest_torrent_url [h] w) = Inr u) =
      (\<exists>pre e a m b t nl. h = pre @ e @ a @ m @ b @ t @ nl \<and> ci_eq e ''enwiki-''
         \<and> CHR 0x0A \<notin> set a \<and> ci_eq m ''pages-articles-multistream''
         \<and> CHR 0x0A \<notin> set b \<and> ci_eq t ''.torrent'' \<and> (nl = [] \<or> nl = [CHR 0x0A])))
   \<and> (re_search TORRENT_NAME_RE (basename h) \<longrightarrow> (\<exists>u. fst (latest_torrent_url [h] w) = Inr u))"
proof -
  have sel: "(\<exists>u. fst (latest_torrent_url [h] w) = Inr u) = re_search TORRENT_NAME_RE h"
    by (simp add: latest_torrent_url_def)
  have "re_search TORRENT_NAME_RE h" if "re_search TORRENT_NAME_RE (basename h)"
  proof -
    from that obtain pre t where 1: "basename h = pre @ t" "rmatch TORRENT_NAME_RE t"
      unfolding re_search_iff by blast
    have "h = rev (dropWhile (\<lambda>c. c \<noteq> CHR ''/'') (rev h)) @ basename h"
      unfolding basename_def by (metis rev_append rev_rev_ident takeWhile_dropWhile_id)
    with 1(1) have "h = (rev (dropWhile (\<lambda>c. c \<noteq> CHR ''/'') (rev h)) @ pre) @ t"
      by simp
    with 1(2) show ?thesis
      using re_search_iff by blast
  qed
  with sel show ?thesis
    using torrent_search_iff by simp
qed

theorem resolver_selects_on_whole_href_witness:
  "re_search TORRENT_NAME_RE (basename ''/wiki/enwiki-pages-articles-multistream.torrent'')
   \<and> (\<exists>u. fst (latest_torrent_url [''/wiki/enwiki-pages-articles-multistream.torrent'']
              \<lparr>fs = Map.empty, jobs = [], trace = []\<rparr>) = Inr u)"
proof -
  have h: "re_search TORRENT_NAME_RE (basename ''/wiki/enwiki-pages-articles-multistream.torrent'')"
    by code_simp
  with resolver_selects_on_whole_href [of "''/wiki/enwiki-pages-articles-multistream.torrent''"
      "\<lparr>fs = Map.empty, jobs = [], trace = []\<rparr>"]
  show ?thesis by blast
qed

text \<open>
  C3 as the specification words it fails: this href is selected although its trailing
  path segment, \<open>readme.torrent\<close>, does not match the pattern.
\<close>

theorem resolver_trailing_segment_counterexample:
  "\<not> ((\<exists>u. fst (latest_torrent_url
                 [''https://x.org/enwiki-2024/pages-articles-multistream/readme.torrent'']
                 \<lparr>fs = Map.empty, jobs = [], trace = []\<rparr>) = Inr u)
       = re_search TORRENT_NAME_RE
           (basename ''https://x.org/enwiki-2024/pages-articles-multistream/readme.torrent''))"
proof -
  have a: "re_search TORRENT_NAME_RE
      ''https://x.org/enwiki-2024/pages-articles-multistream/readme.torrent''"
    by code_simp
  have b: "\<not> re_search TORRENT_NAME_RE
      (basename ''https://x.org/enwiki-2024/pages-articles-multistream/readme.torrent'')"
    by code_simp
  have "\<exists>u. fst (latest_torrent_url
                 [''https://x.org/enwiki-2024/pages-articles-multistream/readme.torrent'']
                 \<lparr>fs = Map.empty, jobs = [], trace = []\<rparr>) = Inr u"
    using a by (simp add: latest_torrent_url_def)
  with b show ?thesis by blast
qed

section \<open>The fetcher\<close>





text \<open>
  C9, as the code has it. The destination is opened, and so truncated, before the status
  is looked at: when a response arrives with a 4xx or 5xx status and a file of that name
  exists in the temporary directory, the HTTP error is raised with that file already
  empty. The fetch is not atomic on error.
\<close>

theorem download_torrent_truncates_before_status:
  assumes "absolute_url url" and "answer = Inr r"
    and "os Sys_open (tmpdir @ [basename url]) = None"
    and "basename url \<noteq> []" "basename url \<noteq> ''.''" "basename url \<noteq> ''..''"
    and "is_dir (fs w) tmpdir" and "fs w (tmpdir @ [basename url]) = Some (File c m)"
    and "400 \<le> status_code r" "status_code r < 600"
  shows "download_torrent os tmpdir now url answer w =
           (Inl HTTPError,
            w\<lparr>trace := trace w @ [Log_Downloading url (tmpdir @ [basename url]),
                                   Http_Get_Stream url, Open_WB (tmpdir @ [basename url])],
               fs := (fs w)(tmpdir @ [basename url] \<mapsto> File [] now)\<rparr>)"
  using assms
  by (simp add: download_torrent_def pjoin_def open_wb_def emit_def raise_for_status_def Let_def
      is_dir_def resolved_def written_def)

theorem download_torrent_truncates_before_status_witness:
  "download_torrent (\<lambda>c p. None) [''tmp''] 5 ''https://x.org/a.torrent''
       (Inr \<lparr>status_code = 404, chunks = [''Not Found''], broken = None\<rparr>)
       \<lparr>fs = [[''tmp''] \<mapsto> Dir, [''tmp'', ''a.torrent''] \<mapsto> File ''old'' 1], jobs = [], trace = []\<rparr>
     = (Inl HTTPError,
        \<lparr>fs = [[''tmp''] \<mapsto> Dir, [''tmp'', ''a.torrent''] \<mapsto> File [] 5], jobs = [],
           trace = [Log_Downloading ''https://x.org/a.torrent'' [''tmp'', ''a.torrent''],
                    Http_Get_Stream ''https://x.org/a.torrent'', Open_WB [''tmp'', ''a.torrent'']]\<rparr>)"
proof -
  let ?w = "\<lparr>fs = [[''tmp''] \<mapsto> Dir, [''tmp'', ''a.torrent''] \<mapsto> File ''old'' 1],
              jobs = [], trace = []\<rparr>"
  let ?r = "\<lparr>status_code = 404, chunks = [''Not Found''], broken = None\<rparr>"
  have b: "basename ''https://x.org/a.torrent'' = ''a.torrent''"
    by (simp add: basename_def)
  have h0: "absolute_url ''https://x.org/a.torrent''" by code_simp
  have h1: "basename ''https://x.org/a.torrent'' \<noteq> []"
    and h2: "basename ''https://x.org/a.torrent'' \<noteq> ''.''"
    and h3: "basename ''https://x.org/a.torrent'' \<noteq> ''..''"
    by (simp_all add: b)
  have h4: "is_dir (fs ?w) [''tmp'']"
    by (simp add: is_dir_def resolved_def)
  have h5: "fs ?w ([''tmp''] @ [basename ''https://x.org/a.torrent'']) = Some (File ''old'' 1)"
    by (simp add: b)
  have h6: "(\<lambda>c p. None) Sys_open ([''tmp''] @ [basename ''https://x.org/a.torrent'']) = None"
    by simp
  have h7: "400 \<le> status_code ?r" and h8: "status_code ?r < 600"
    by simp_all
  from download_torrent_truncates_before_status [where os = "\<lambda>c p. None" and answer = "Inr ?r"
      and r = ?r and now = 5, OF h0 refl h6 h1 h2 h3 h4 h5 h7 h8]
  show ?thesis by (simp add: b)
qed

text \<open>
  C9 as the specification words it fails on a response that is not 2xx and not an error
  for \<open>raise_for_status\<close>: with the status 304 no error is raised at all, and the file
  that was there holds the body of the response.
\<close>

theorem download_torrent_no_error_on_304_counterexample:
  "download_torrent (\<lambda>c p. None) [''tmp''] 5 ''https://x.org/a.torrent''
       (Inr \<lparr>status_code = 304, chunks = [''new''], broken = None\<rparr>)
       \<lparr>fs = [[''tmp''] \<mapsto> Dir, [''tmp'', ''a.torrent''] \<mapsto> File ''old'' 1], jobs = [], trace = []\<rparr>
     = (Inr [''tmp'', ''a.torrent''],
        \<lparr>fs = [[''tmp''] \<mapsto> Dir, [''tmp'', ''a.torrent''] \<mapsto> File ''new'' 5], jobs = [],
           trace = [Log_Downloading ''https://x.org/a.torrent'' [''tmp'', ''a.torrent''],
                    Http_Get_Stream ''https://x.org/a.torrent'', Open_WB [''tmp'', ''a.torrent'']]\<rparr>)"
proof -
  have a: "absolute_url ''https://x.org/a.torrent''" by code_simp
  show ?thesis
    using a
    by (simp add: download_torrent_def pjoin_def open_wb_def emit_def raise_for_status_def Let_def
        basename_def is_dir_def resolved_def path_exists_def written_def)
qed

section \<open>The pruner and the in-progress marker\<close>

text \<open>
  C8. A name that ends in \<open>.!qB\<close> never matches the dump pattern, whose last character
  before the end (or before a final newline) is the \<open>2\<close> of \<open>.bz2\<close>. So the loop
  skips such an entry at the pattern check, whatever the entry is, and the branch that
  tests the marker is never taken.
\<close>

theorem in_progress_skipped_by_pattern:
  assumes "endswith n ''.!qB''"
  shows "\<not> rmatch DUMP_FILE_RE n
       \<and> prune_loop os d cutoff (n # ns) removed w = prune_loop os d cutoff ns removed w"
proof -
  have "\<not> rmatch DUMP_FILE_RE n"
    using assms by (rule in_progress_never_matches)
  then show ?thesis
    by (simp split: option.split node.split)
qed

theorem in_progress_skipped_by_pattern_witness:
  "endswith ''enwiki-20240101-pages-articles-multistream1.xml.bz2.!qB'' ''.!qB''
   \<and> \<not> rmatch DUMP_FILE_RE ''enwiki-20240101-pages-articles-multistream1.xml.bz2.!qB''"
proof -
  have h: "endswith ''enwiki-20240101-pages-articles-multistream1.xml.bz2.!qB'' ''.!qB''"
    by code_simp
  from in_progress_skipped_by_pattern [OF h] h show ?thesis by blast
qed

section \<open>The pruner\<close>


lemma jobs_emit: "jobs (emit es w) = jobs w"
  by (simp add: emit_def)







lemma fs_after_unlink:
  "fs ((emit es w)\<lparr>fs := (fs w)(p := None)\<rparr>) = (fs w)(p := None)"
  by simp







section \<open>The submitter\<close>

text \<open>
  C5. When the remote API rejects the credentials, \<open>push_to_qb\<close> raises the login
  error; the only call it has made is the login itself, so no \<open>torrents_add\<close> call is
  attempted, and the remote job list and the file system are as before.
\<close>

theorem push_to_qb_login_failure:
  assumes "\<not> accepts host port user pw"
  shows "push_to_qb os accepts tp host port user pw sd cat w =
           (Inl LoginFailed, w\<lparr>trace := trace w @ [Auth_Log_In host port user pw]\<rparr>)"
  using assms by (simp add: push_to_qb_def emit_def)

theorem push_to_qb_login_failure_witness:
  "push_to_qb (\<lambda>c p. None) (\<lambda>h p u x. False) [''tmp'', ''a.torrent''] ''localhost'' 8080 ''admin''
       ''wrong'' [''mnt'', ''wiki''] ''wikipedia'' \<lparr>fs = Map.empty, jobs = [], trace = []\<rparr>
     = (Inl LoginFailed,
        \<lparr>fs = Map.empty, jobs = [], trace = [Auth_Log_In ''localhost'' 8080 ''admin'' ''wrong'']\<rparr>)"
  using push_to_qb_login_failure [where accepts = "\<lambda>h p u x. False" and host = "''localhost''"
      and port = 8080 and user = "''admin''" and pw = "''wrong''" and os = "\<lambda>c p. None"
      and tp = "[''tmp'', ''a.torrent'']" and sd = "[''mnt'', ''wiki'']" and cat = "''wikipedia''"
      and w = "\<lparr>fs = Map.empty, jobs = [], trace = []\<rparr>"]
  by simp

text \<open>
  C10. \<open>push_to_qb\<close> calls \<open>mkdir\<close> exactly when the login was accepted and the save
  directory is not a directory, and on no other path than the save directory; when the
  save directory is a directory already, the file system is left as it was.
\<close>

theorem push_to_qb_mkdir_only_when_missing:
  "(Mkdir sd \<in> set (new_events w (snd (push_to_qb os accepts tp host port user pw sd cat w))))
      = (accepts host port user pw \<and> \<not> is_dir (fs w) sd)
   \<and> (\<forall>p. Mkdir p \<in> set (new_events w (snd (push_to_qb os accepts tp host port user pw sd cat w)))
          \<longrightarrow> p = sd)
   \<and> (is_dir (fs w) sd \<longrightarrow>
         fs (snd (push_to_qb os accepts tp host port user pw sd cat w)) = fs w)"
  by (auto simp: push_to_qb_def emit_def new_events_def Let_def
      split: sum.splits option.splits node.splits prod.splits)

theorem push_to_qb_mkdir_only_when_missing_witness:
  "is_dir (fs \<lparr>fs = [[''mnt''] \<mapsto> Dir], jobs = [], trace = []\<rparr>) [''mnt'']
   \<and> Mkdir [''mnt''] \<notin> set (new_events \<lparr>fs = [[''mnt''] \<mapsto> Dir], jobs = [], trace = []\<rparr>
        (snd (push_to_qb (\<lambda>c p. None) (\<lambda>h p u x. True) [''a.torrent''] ''localhost'' 8080 ''admin''
                ''adminadmin'' [''mnt''] ''wikipedia''
                \<lparr>fs = [[''mnt''] \<mapsto> Dir], jobs = [], trace = []\<rparr>)))
   \<and> fs (snd (push_to_qb (\<lambda>c p. None) (\<lambda>h p u x. True) [''a.torrent''] ''localhost'' 8080 ''admin''
                ''adminadmin'' [''mnt''] ''wikipedia''
                \<lparr>fs = [[''mnt''] \<mapsto> Dir], jobs = [], trace = []\<rparr>))
       = fs \<lparr>fs = [[''mnt''] \<mapsto> Dir], jobs = [], trace = []\<rparr>"
proof -
  have h: "is_dir (fs \<lparr>fs = [[''mnt''] \<mapsto> Dir], jobs = [], trace = []\<rparr>) [''mnt'']"
    by (simp add: is_dir_def resolved_def)
  from push_to_qb_mkdir_only_when_missing [where sd = "[''mnt'']"
      and w = "\<lparr>fs = [[''mnt''] \<mapsto> Dir], jobs = [], trace = []\<rparr>" and os = "\<lambda>c p. None"
      and accepts = "\<lambda>h p u x. True" and tp = "[''a.torrent'']" and host = "''localhost''"
      and port = 8080 and user = "''admin''" and pw = "''adminadmin''" and cat = "''wikipedia''"] h
  show ?thesis by blast
qed

text \<open>What \<open>mkdir(parents=True, exist_ok=True)\<close> achieves when nothing is in the way.\<close>

lemma is_dir_Dir: "f p = Some Dir \<Longrightarrow> is_dir f p"
  by (simp add: is_dir_def resolved_def)

lemma is_dir_exists: "is_dir f p \<Longrightarrow> p \<noteq> [] \<Longrightarrow> f p \<noteq> None"
  by (auto simp: is_dir_def resolved_def split: option.splits)

lemma is_dir_mkdir_other: "is_dir f q \<Longrightarrow> q \<noteq> p \<Longrightarrow> is_dir (f(p \<mapsto> Dir)) q"
  by (simp add: is_dir_def resolved_def)

lemma tree_prefix_dirs:
  assumes "tree f" and "is_dir f q"
  shows "k \<le> length q \<Longrightarrow> is_dir f (take k q)"
  using assms(2)
proof (induction q arbitrary: k rule: rev_induct)
  case Nil
  then show ?case by (simp add: is_dir_def)
next
  case (snoc x q)
  from snoc.prems have "f (q @ [x]) \<noteq> None" by (simp add: is_dir_exists)
  with assms(1) have q: "is_dir f q" by (auto simp: tree_def)
  show ?case
  proof (cases "k \<le> length q")
    case True
    with snoc.IH [OF _ q] show ?thesis by simp
  next
    case False
    with snoc.prems have "k = Suc (length q)" by simp
    with snoc.prems show ?thesis by simp
  qed
qed

lemma mkdir_parents_creates:
  assumes "tree f"
  shows "(\<forall>k\<le>length p. os Sys_mkdir (take k p) = None) \<Longrightarrow>
         (\<forall>k\<le>length p. f (take k p) = None \<or> f (take k p) = Some Dir) \<Longrightarrow>
         \<exists>f'. mkdir_parents os f p = Inr f' \<and> (\<forall>k\<le>length p. is_dir f' (take k p))
            \<and> (\<forall>q. f q \<noteq> None \<longrightarrow> f' q = f q)
            \<and> (\<forall>q. f' q \<noteq> f q \<longrightarrow> (\<exists>k\<le>length p. q = take k p))"
proof (induction p rule: rev_induct)
  case Nil
  then have "os Sys_mkdir [] = None" by simp
  then have "mkdir_parents os f [] = Inr f"
    by (simp add: mkdir_parents.simps [of os f "[]"] os_mkdir_def mkdir_once_def is_dir_def
        path_exists_def)
  then show ?case by (simp add: is_dir_def)
next
  case (snoc x p)
  let ?p = "p @ [x]"
  from snoc.prems(1) [rule_format, of "length ?p"] have perm: "os Sys_mkdir ?p = None"
    by simp
  have perm': "\<forall>k\<le>length p. os Sys_mkdir (take k p) = None"
  proof (intro allI impI)
    fix k assume "k \<le> length p"
    with snoc.prems(1) [rule_format, of k] show "os Sys_mkdir (take k p) = None" by simp
  qed
  from snoc.prems(2) [rule_format, of "length ?p"] have pcases: "f ?p = None \<or> f ?p = Some Dir"
    by simp
  have pre: "\<forall>k\<le>length p. f (take k p) = None \<or> f (take k p) = Some Dir"
  proof (intro allI impI)
    fix k assume "k \<le> length p"
    with snoc.prems(2) [rule_format, of k]
    show "f (take k p) = None \<or> f (take k p) = Some Dir" by simp
  qed
  have len: "take k p \<noteq> ?p" for k
  proof
    assume "take k p = ?p"
    then have "length (take k p) = length ?p" by simp
    then show False by (simp add: min_def split: if_splits)
  qed
  have whole: "length ?p \<le> length ?p \<and> ?p = take (length ?p) ?p"
    by simp
  show ?case
  proof (cases "is_dir f p")
    case True
    then have dirs: "\<forall>k\<le>length p. is_dir f (take k p)"
      using tree_prefix_dirs [OF assms True] by blast
    from pcases show ?thesis
    proof
      assume n: "f ?p = None"
      with True perm have "mkdir_parents os f ?p = Inr (f(?p \<mapsto> Dir))"
        by (simp add: mkdir_parents.simps [of os f ?p] os_mkdir_def mkdir_once_def path_exists_def)
      moreover have "\<forall>k\<le>length ?p. is_dir (f(?p \<mapsto> Dir)) (take k ?p)"
      proof (intro allI impI)
        fix k assume "k \<le> length ?p"
        then consider "k \<le> length p" | "k = length ?p" by fastforce
        then show "is_dir (f(?p \<mapsto> Dir)) (take k ?p)"
        proof cases
          case 1
          with dirs have "is_dir f (take k p)" by blast
          then have "is_dir (f(?p \<mapsto> Dir)) (take k p)"
            using len by (rule is_dir_mkdir_other)
          with 1 show ?thesis by simp
        next
          case 2
          then show ?thesis by (simp add: is_dir_Dir)
        qed
      qed
      moreover have "\<forall>q. f q \<noteq> None \<longrightarrow> (f(?p \<mapsto> Dir)) q = f q"
        using n by auto
      moreover have "\<forall>q. (f(?p \<mapsto> Dir)) q \<noteq> f q \<longrightarrow> (\<exists>k\<le>length ?p. q = take k ?p)"
      proof (intro allI impI)
        fix q assume "(f(?p \<mapsto> Dir)) q \<noteq> f q"
        then have "q = ?p" by (simp split: if_splits)
        with whole show "\<exists>k\<le>length ?p. q = take k ?p" by blast
      qed
      ultimately show ?thesis by blast
    next
      assume d: "f ?p = Some Dir"
      with True perm have "mkdir_parents os f ?p = Inr f"
        by (simp add: mkdir_parents.simps [of os f ?p] os_mkdir_def mkdir_once_def path_exists_def
            is_dir_Dir)
      moreover have "\<forall>k\<le>length ?p. is_dir f (take k ?p)"
      proof (intro allI impI)
        fix k assume "k \<le> length ?p"
        then consider "k \<le> length p" | "k = length ?p" by fastforce
        then show "is_dir f (take k ?p)"
        proof cases
          case 1
          with dirs have "is_dir f (take k p)" by blast
          with 1 show ?thesis by simp
        next
          case 2
          with d show ?thesis by (simp add: is_dir_Dir)
        qed
      qed
      ultimately show ?thesis by blast
    qed
  next
    case False
    then have pne: "p \<noteq> []" by (auto simp: is_dir_def)
    from pre [rule_format, of "length p"] have "f p = None \<or> f p = Some Dir" by simp
    with False have fp: "f p = None" by (auto simp: is_dir_Dir)
    then have rp: "resolved f p = None" by (simp add: resolved_def)
    from snoc.IH [OF perm' pre] obtain f1 where
      f1: "mkdir_parents os f p = Inr f1" and d1: "\<forall>k\<le>length p. is_dir f1 (take k p)"
      and keep1: "\<forall>q. f q \<noteq> None \<longrightarrow> f1 q = f q"
      and only1: "\<forall>q. f1 q \<noteq> f q \<longrightarrow> (\<exists>k\<le>length p. q = take k p)"
      by blast
    have same: "f1 ?p = f ?p"
    proof (rule ccontr)
      assume "f1 ?p \<noteq> f ?p"
      with only1 obtain k where "k \<le> length p" "?p = take k p" by blast
      with len [of k] show False by simp
    qed
    from d1 [rule_format, of "length p"] have dp: "is_dir f1 p" by simp
    have "os_mkdir os f ?p = Inl FileNotFoundError"
      using False pne rp perm by (simp add: os_mkdir_def parent_error_def)
    then have rec: "mkdir_parents os f ?p = mkdir_once os f1 ?p"
      using f1 by (simp add: mkdir_parents.simps [of os f ?p])
    from pcases show ?thesis
    proof
      assume n: "f ?p = None"
      with same dp rec perm have "mkdir_parents os f ?p = Inr (f1(?p \<mapsto> Dir))"
        by (simp add: os_mkdir_def mkdir_once_def path_exists_def)
      moreover have "\<forall>k\<le>length ?p. is_dir (f1(?p \<mapsto> Dir)) (take k ?p)"
      proof (intro allI impI)
        fix k assume "k \<le> length ?p"
        then consider "k \<le> length p" | "k = length ?p" by fastforce
        then show "is_dir (f1(?p \<mapsto> Dir)) (take k ?p)"
        proof cases
          case 1
          with d1 have "is_dir f1 (take k p)" by blast
          then have "is_dir (f1(?p \<mapsto> Dir)) (take k p)"
            using len by (rule is_dir_mkdir_other)
          with 1 show ?thesis by simp
        next
          case 2
          then show ?thesis by (simp add: is_dir_Dir)
        qed
      qed
      moreover have "\<forall>q. f q \<noteq> None \<longrightarrow> (f1(?p \<mapsto> Dir)) q = f q"
        using n keep1 by auto
      moreover have "\<forall>q. (f1(?p \<mapsto> Dir)) q \<noteq> f q \<longrightarrow> (\<exists>k\<le>length ?p. q = take k ?p)"
      proof (intro allI impI)
        fix q assume a: "(f1(?p \<mapsto> Dir)) q \<noteq> f q"
        show "\<exists>k\<le>length ?p. q = take k ?p"
        proof (cases "q = ?p")
          case True
          with whole show ?thesis by blast
        next
          case False
          with a have "f1 q \<noteq> f q" by simp
          with only1 obtain k where "k \<le> length p" "q = take k p" by blast
          then have "k \<le> length ?p \<and> q = take k ?p" by simp
          then show ?thesis by blast
        qed
      qed
      ultimately show ?thesis by blast
    next
      assume d: "f ?p = Some Dir"
      with same have "is_dir f1 ?p" by (simp add: is_dir_Dir)
      with d same dp rec perm have "mkdir_parents os f ?p = Inr f1"
        by (simp add: os_mkdir_def mkdir_once_def path_exists_def)
      moreover have "\<forall>k\<le>length ?p. is_dir f1 (take k ?p)"
      proof (intro allI impI)
        fix k assume "k \<le> length ?p"
        then consider "k \<le> length p" | "k = length ?p" by fastforce
        then show "is_dir f1 (take k ?p)"
        proof cases
          case 1
          with d1 have "is_dir f1 (take k p)" by blast
          with 1 show ?thesis by simp
        next
          case 2
          with d same show ?thesis by (simp add: is_dir_Dir)
        qed
      qed
      moreover have "\<forall>q. f1 q \<noteq> f q \<longrightarrow> (\<exists>k\<le>length ?p. q = take k ?p)"
      proof (intro allI impI)
        fix q assume "f1 q \<noteq> f q"
        with only1 obtain k where "k \<le> length p" "q = take k p" by blast
        then have "k \<le> length ?p \<and> q = take k ?p" by simp
        then show "\<exists>k\<le>length ?p. q = take k ?p" by blast
      qed
      ultimately show ?thesis using keep1 by blast
    qed
  qed
qed

text \<open>
  C6, as the code has it. In a file system that is a tree, when the login is
  accepted, the save directory is not a directory, each of the save directory and its
  ancestors is either absent or a directory, and the operating system refuses none of
  the \<open>mkdir\<close> calls, \<open>push_to_qb\<close> calls \<open>mkdir\<close> before it opens the torrent and
  before any \<open>torrents_add\<close>; from then on the save directory and all its ancestors are
  directories, and nothing that existed has changed.
\<close>

theorem push_to_qb_creates_save_dir:
  assumes acc: "accepts host port user pw" and nd: "\<not> is_dir (fs w) sd"
    and tr: "tree (fs w)"
    and nf: "\<forall>k\<le>length sd. fs w (take k sd) = None \<or> fs w (take k sd) = Some Dir"
    and perm: "\<forall>k\<le>length sd. os Sys_mkdir (take k sd) = None"
  shows "\<exists>rest. new_events w (snd (push_to_qb os accepts tp host port user pw sd cat w))
             = [Auth_Log_In host port user pw, Log_Connected, Log_CreatingSaveDir sd, Mkdir sd,
                Open_RB tp] @ rest
           \<and> (rest = [] \<or> (\<exists>j. rest = [Torrents_Add j, Log_TorrentQueued (last tp)]))
           \<and> (\<forall>k\<le>length sd.
                 is_dir (fs (snd (push_to_qb os accepts tp host port user pw sd cat w))) (take k sd))
           \<and> (\<forall>q. fs w q \<noteq> None \<longrightarrow>
                 fs (snd (push_to_qb os accepts tp host port user pw sd cat w)) q = fs w q)"
proof -
  from mkdir_parents_creates [where os = os, OF tr perm nf] obtain f' where
    m: "mkdir_parents os (fs w) sd = Inr f'" and d: "\<forall>k\<le>length sd. is_dir f' (take k sd)"
    and keep: "\<forall>q. fs w q \<noteq> None \<longrightarrow> f' q = fs w q"
    by blast
  show ?thesis
    using acc nd m d keep
    by (auto simp: push_to_qb_def emit_def new_events_def Let_def
        split: option.splits node.splits)
qed

theorem push_to_qb_creates_save_dir_witness:
  "tree (fs \<lparr>fs = [[''tmp''] \<mapsto> Dir, [''tmp'', ''a.torrent''] \<mapsto> File ''d8'' 1], jobs = [], trace = []\<rparr>)
   \<and> \<not> is_dir (fs \<lparr>fs = [[''tmp''] \<mapsto> Dir, [''tmp'', ''a.torrent''] \<mapsto> File ''d8'' 1], jobs = [], trace = []\<rparr>) [''mnt'', ''wiki'']
   \<and> new_events \<lparr>fs = [[''tmp''] \<mapsto> Dir, [''tmp'', ''a.torrent''] \<mapsto> File ''d8'' 1], jobs = [], trace = []\<rparr>
        (snd (push_to_qb (\<lambda>c p. None) (\<lambda>h p u x. True) [''tmp'', ''a.torrent''] ''localhost''
                8080 ''admin'' ''adminadmin'' [''mnt'', ''wiki''] ''wikipedia'' \<lparr>fs = [[''tmp''] \<mapsto> Dir, [''tmp'', ''a.torrent''] \<mapsto> File ''d8'' 1], jobs = [], trace = []\<rparr>))
       = [Auth_Log_In ''localhost'' 8080 ''admin'' ''adminadmin'', Log_Connected,
          Log_CreatingSaveDir [''mnt'', ''wiki''], Mkdir [''mnt'', ''wiki''],
          Open_RB [''tmp'', ''a.torrent''],
          Torrents_Add \<lparr>torrent_files = ''d8'', save_path = [''mnt'', ''wiki''],
                         job_category = ''wikipedia'', use_auto_torrent_management = False,
                         paused = False\<rparr>,
          Log_TorrentQueued ''a.torrent'']
   \<and> is_dir (fs (snd (push_to_qb (\<lambda>c p. None) (\<lambda>h p u x. True) [''tmp'', ''a.torrent'']
                ''localhost'' 8080 ''admin'' ''adminadmin'' [''mnt'', ''wiki''] ''wikipedia''
                \<lparr>fs = [[''tmp''] \<mapsto> Dir, [''tmp'', ''a.torrent''] \<mapsto> File ''d8'' 1], jobs = [], trace = []\<rparr>))) [''mnt'', ''wiki'']
   \<and> is_dir (fs (snd (push_to_qb (\<lambda>c p. None) (\<lambda>h p u x. True) [''tmp'', ''a.torrent'']
                ''localhost'' 8080 ''admin'' ''adminadmin'' [''mnt'', ''wiki''] ''wikipedia''
                \<lparr>fs = [[''tmp''] \<mapsto> Dir, [''tmp'', ''a.torrent''] \<mapsto> File ''d8'' 1], jobs = [], trace = []\<rparr>))) [''mnt'']"
proof -
  let ?w = "\<lparr>fs = [[''tmp''] \<mapsto> Dir, [''tmp'', ''a.torrent''] \<mapsto> File ''d8'' 1], jobs = [], trace = []\<rparr>"
  let ?os = "(\<lambda>c p. None) :: os"
  have h2: "\<not> is_dir (fs ?w) [''mnt'', ''wiki'']" by (simp add: is_dir_def resolved_def)
  have h3: "tree (fs ?w)"
    by (auto simp: tree_def is_dir_def resolved_def split: if_splits)
  have h4: "\<forall>k\<le>length [''mnt'', ''wiki''].
              fs ?w (take k [''mnt'', ''wiki'']) = None \<or> fs ?w (take k [''mnt'', ''wiki'']) = Some Dir"
  proof (intro allI impI)
    fix k :: nat assume "k \<le> length [''mnt'', ''wiki'']"
    then consider "k = 0" | "k = 1" | "k = 2" by fastforce
    then show "fs ?w (take k [''mnt'', ''wiki'']) = None
        \<or> fs ?w (take k [''mnt'', ''wiki'']) = Some Dir"
      by cases simp_all
  qed
  have h5: "\<forall>k\<le>length [''mnt'', ''wiki'']. ?os Sys_mkdir (take k [''mnt'', ''wiki'']) = None"
    by simp
  from push_to_qb_creates_save_dir [where accepts = "\<lambda>h p u x. True" and host = "''localhost''"
      and port = 8080 and user = "''admin''" and pw = "''adminadmin''" and w = ?w and os = ?os
      and sd = "[''mnt'', ''wiki'']" and tp = "[''tmp'', ''a.torrent'']" and cat = "''wikipedia''",
      OF _ h2 h3 h4 h5]
  have d: "\<forall>k\<le>length [''mnt'', ''wiki''].
             is_dir (fs (snd (push_to_qb ?os (\<lambda>h p u x. True) [''tmp'', ''a.torrent''] ''localhost''
                8080 ''admin'' ''adminadmin'' [''mnt'', ''wiki''] ''wikipedia'' ?w)))
               (take k [''mnt'', ''wiki''])"
    by blast
  have ev: "new_events ?w
        (snd (push_to_qb ?os (\<lambda>h p u x. True) [''tmp'', ''a.torrent''] ''localhost''
                8080 ''admin'' ''adminadmin'' [''mnt'', ''wiki''] ''wikipedia'' ?w))
       = [Auth_Log_In ''localhost'' 8080 ''admin'' ''adminadmin'', Log_Connected,
          Log_CreatingSaveDir [''mnt'', ''wiki''], Mkdir [''mnt'', ''wiki''],
          Open_RB [''tmp'', ''a.torrent''],
          Torrents_Add \<lparr>torrent_files = ''d8'', save_path = [''mnt'', ''wiki''],
                         job_category = ''wikipedia'', use_auto_torrent_management = False,
                         paused = False\<rparr>,
          Log_TorrentQueued ''a.torrent'']"
    by (simp add: push_to_qb_def emit_def new_events_def is_dir_def resolved_def path_exists_def
        parent_error_def mkdir_once_def os_mkdir_def Let_def
        mkdir_parents.simps [of _ _ "[''mnt'', ''wiki'']"] mkdir_parents.simps [of _ _ "[''mnt'']"])
  from d [rule_format, of 2] d [rule_format, of 1] h2 h3 ev show ?thesis by simp
qed

text \<open>
  C6 as the specification words it fails when a file is in the way: the save directory
  does not exist, the login is accepted, and \<open>mkdir\<close> raises; no directory is made and
  no job is added.
\<close>

theorem push_to_qb_blocked_mkdir_counterexample:
  "\<not> path_exists (fs \<lparr>fs = [[''etc''] \<mapsto> Dir, [''etc'', ''passwd''] \<mapsto> File ''root'' 1],
                       jobs = [], trace = []\<rparr>) [''etc'', ''passwd'', ''x'']
   \<and> push_to_qb (\<lambda>c p. None) (\<lambda>h p u x. True) [''a.torrent''] ''localhost'' 8080 ''admin''
        ''adminadmin'' [''etc'', ''passwd'', ''x''] ''wikipedia''
        \<lparr>fs = [[''etc''] \<mapsto> Dir, [''etc'', ''passwd''] \<mapsto> File ''root'' 1], jobs = [], trace = []\<rparr>
      = (Inl NotADirectoryError,
         \<lparr>fs = [[''etc''] \<mapsto> Dir, [''etc'', ''passwd''] \<mapsto> File ''root'' 1], jobs = [],
            trace = [Auth_Log_In ''localhost'' 8080 ''admin'' ''adminadmin'', Log_Connected,
                     Log_CreatingSaveDir [''etc'', ''passwd'', ''x''],
                     Mkdir [''etc'', ''passwd'', ''x'']]\<rparr>)"
  by (simp add: push_to_qb_def emit_def is_dir_def resolved_def path_exists_def parent_error_def
      mkdir_once_def os_mkdir_def mkdir_parents.simps [of _ _ "[''etc'', ''passwd'', ''x'']"])

section \<open>The top-level run\<close>














end
